theory Spec2Isabelle
  imports Main
begin

section \<open>The library store and its operations (models.py)\<close>

text \<open>
  The exception classes of models.py, with the built-in \<open>ValueError\<close> that the
  property setters raise. An exception's message text is not modelled.
\<close>

datatype error = LibException | AuthFail | OutOfQuota | HasBorrowed | NoBook | ValueError

text \<open>
  One record per table of the schema created by \<open>init_db\<close>; a table is the list of its
  rows in insertion order. Dates are day numbers (the clock's \<open>date.today()\<close> is an
  argument of \<open>borrow\<close>), integers are unbounded as Python's are, and every column holds
  a value of its declared type, as in every row that \<open>init_db\<close> and the methods write;
  \<open>join_year\<close> alone is written as NULL (for students).
\<close>

record user_row =
  user_uid :: string
  user_name :: string
  user_sex :: string
  user_age :: int
  user_college :: string
  user_join_year :: "int option"
  user_password :: string
  user_role :: string

record book_row =
  book_isbn :: string
  book_name :: string
  book_category :: string
  book_authors :: string
  book_publisher :: string
  book_keywords :: string
  book_remain :: int

record borrow_row =
  borrow_id :: int
  borrow_uid :: string
  borrow_isbn :: string
  borrow_date :: int
  due_date :: int
  returned :: int

text \<open>
  \<open>borrow_seq\<close> is the counter SQLite keeps for the AUTOINCREMENT key of table
  \<open>borrow\<close>: the largest id the table ever held.
\<close>

record database =
  user_tbl :: "user_row list"
  class_tbl :: "(string \<times> string) list"
  student_tbl :: "(string \<times> string) list"
  teacher_class_tbl :: "(string \<times> string) list"
  book_tbl :: "book_row list"
  borrow_tbl :: "borrow_row list"
  borrow_seq :: int

text \<open>
  A \<open>User\<close> object (class \<open>User\<close> and its subclasses \<open>Teacher\<close>, \<open>Student\<close>): the
  attributes set by \<open>User.__init__\<close>. Class \<open>Teacher\<close> is the objects whose role is
  \<open>TEA\<close>; its extra attribute \<open>join_year\<close> is read by no method.
\<close>

record user =
  uid :: string
  name :: string
  sex :: string
  age :: int
  college :: string
  pwd_hash :: string
  role :: string

subsection \<open>Quota\<close>

definition quota :: "user \<Rightarrow> int" where
  "quota self = (if role self = ''TEA'' then 4 else 2)"

subsection \<open>The queries of \<open>borrow\<close> and \<open>return_book\<close>\<close>

text \<open>\<open>SELECT * FROM book WHERE isbn=?\<close>, \<open>fetchone()\<close>: the first such row, or None.\<close>

definition select_book :: "database \<Rightarrow> string \<Rightarrow> book_row option" where
  "select_book db isbn = find (\<lambda>b. book_isbn b = isbn) (book_tbl db)"

text \<open>\<open>SELECT 1 FROM borrow WHERE uid=? AND isbn=? AND returned=0\<close>, \<open>fetchone()\<close>.\<close>

definition select_open_loan :: "database \<Rightarrow> string \<Rightarrow> string \<Rightarrow> borrow_row option" where
  "select_open_loan db u isbn =
     find (\<lambda>l. borrow_uid l = u \<and> borrow_isbn l = isbn \<and> returned l = 0) (borrow_tbl db)"

text \<open>\<open>SELECT COUNT(*) FROM borrow WHERE uid=? AND returned=0\<close>.\<close>

definition count_open_loans :: "database \<Rightarrow> string \<Rightarrow> int" where
  "count_open_loans db u =
     int (length (filter (\<lambda>l. borrow_uid l = u \<and> returned l = 0) (borrow_tbl db)))"

text \<open>\<open>SELECT * FROM borrow WHERE id=? AND uid=? AND returned=0\<close>, \<open>fetchone()\<close>.\<close>

definition select_loan :: "database \<Rightarrow> int \<Rightarrow> string \<Rightarrow> borrow_row option" where
  "select_loan db i u =
     find (\<lambda>l. borrow_id l = i \<and> borrow_uid l = u \<and> returned l = 0) (borrow_tbl db)"

subsection \<open>The statements that write\<close>

text \<open>
  \<open>INSERT INTO borrow(uid,isbn,borrow_date,due_date,returned)\<close>: the key is one more than
  the largest id the table holds or ever held.
\<close>

definition next_borrow_id :: "database \<Rightarrow> int" where
  "next_borrow_id db = fold max (map borrow_id (borrow_tbl db)) (borrow_seq db) + 1"

definition insert_borrow :: "string \<Rightarrow> string \<Rightarrow> int \<Rightarrow> int \<Rightarrow> database \<Rightarrow> database" where
  "insert_borrow u isbn today due db =
     db\<lparr>borrow_tbl := borrow_tbl db @
            [\<lparr>borrow_id = next_borrow_id db, borrow_uid = u, borrow_isbn = isbn,
              borrow_date = today, due_date = due, returned = 0\<rparr>],
        borrow_seq := next_borrow_id db\<rparr>"

text \<open>\<open>UPDATE book SET remain=remain+d WHERE isbn=?\<close>.\<close>

definition update_remain :: "string \<Rightarrow> int \<Rightarrow> database \<Rightarrow> database" where
  "update_remain isbn d db =
     db\<lparr>book_tbl := map (\<lambda>b. if book_isbn b = isbn then b\<lparr>book_remain := book_remain b + d\<rparr> else b)
                        (book_tbl db)\<rparr>"

text \<open>\<open>UPDATE borrow SET returned=1 WHERE id=?\<close>.\<close>

definition update_returned :: "int \<Rightarrow> database \<Rightarrow> database" where
  "update_returned i db =
     db\<lparr>borrow_tbl := map (\<lambda>l. if borrow_id l = i then l\<lparr>returned := 1\<rparr> else l) (borrow_tbl db)\<rparr>"

subsection \<open>\<open>User.borrow\<close> and \<open>User.return_book\<close>\<close>

text \<open>
  A method returns its outcome (\<open>Inl\<close> the exception raised) and the store it leaves.
  Every \<open>raise\<close> comes before the first write, so a failing call leaves the store as it
  found it.
\<close>

definition borrow :: "user \<Rightarrow> string \<Rightarrow> int \<Rightarrow> database \<Rightarrow> (error + unit) \<times> database" where
  "borrow self isbn today db =
     (case select_book db isbn of
        None \<Rightarrow> (Inl NoBook, db)
      | Some book \<Rightarrow>
          if book_remain book \<le> 0 then (Inl NoBook, db)
          else if select_open_loan db (uid self) isbn \<noteq> None then (Inl HasBorrowed, db)
          else if count_open_loans db (uid self) \<ge> quota self then (Inl OutOfQuota, db)
          else (Inr (), update_remain isbn (- 1) (insert_borrow (uid self) isbn today (today + 90) db)))"

definition return_book :: "user \<Rightarrow> int \<Rightarrow> database \<Rightarrow> (error + unit) \<times> database" where
  "return_book self i db =
     (case select_loan db i (uid self) of
        None \<Rightarrow> (Inl LibException, db)
      | Some br \<Rightarrow> (Inr (), update_remain (borrow_isbn br) 1 (update_returned i db)))"

subsection \<open>The property setters\<close>

text \<open>The setter returns the object as the assignment leaves it.\<close>

definition set_name :: "user \<Rightarrow> string \<Rightarrow> database \<Rightarrow> (error + user) \<times> database" where
  "set_name self v db =
     (if v = [] then (Inl ValueError, db)
      else (Inr (self\<lparr>name := v\<rparr>),
            db\<lparr>user_tbl := map (\<lambda>r. if user_uid r = uid self then r\<lparr>user_name := v\<rparr> else r)
                               (user_tbl db)\<rparr>))"

definition set_age :: "user \<Rightarrow> int \<Rightarrow> database \<Rightarrow> (error + user) \<times> database" where
  "set_age self v db =
     (if v \<le> 0 then (Inl ValueError, db)
      else (Inr (self\<lparr>age := v\<rparr>),
            db\<lparr>user_tbl := map (\<lambda>r. if user_uid r = uid self then r\<lparr>user_age := v\<rparr> else r)
                               (user_tbl db)\<rparr>))"

subsection \<open>\<open>Teacher.add_class\<close> and \<open>Teacher.remove_class\<close>\<close>

text \<open>
  \<open>INSERT OR IGNORE\<close> into a table whose primary key is the pair: a pair the table
  holds is not inserted again.
\<close>

definition add_class :: "user \<Rightarrow> string \<Rightarrow> database \<Rightarrow> database" where
  "add_class self class_id db =
     (if (uid self, class_id) \<in> set (teacher_class_tbl db) then db
      else db\<lparr>teacher_class_tbl := teacher_class_tbl db @ [(uid self, class_id)]\<rparr>)"

definition remove_class :: "user \<Rightarrow> string \<Rightarrow> database \<Rightarrow> database" where
  "remove_class self class_id db =
     db\<lparr>teacher_class_tbl := filter (\<lambda>p. p \<noteq> (uid self, class_id)) (teacher_class_tbl db)\<rparr>"

section \<open>Requests (app.py)\<close>

text \<open>
  \<open>current_user\<close>: the object a request handler acts through is built from the row
  of table \<open>user\<close> with the session's uid (an absent uid is the empty string here: both
  are falsy). Its role is the row's.
\<close>

definition current_user :: "database \<Rightarrow> string \<Rightarrow> user option" where
  "current_user db u =
     (if u = [] then None
      else (case find (\<lambda>r. user_uid r = u) (user_tbl db) of
              None \<Rightarrow> None
            | Some row \<Rightarrow>
                Some \<lparr>uid = user_uid row, name = user_name row, sex = user_sex row,
                      age = user_age row, college = user_college row,
                      pwd_hash = user_password row, role = user_role row\<rparr>))"

text \<open>
  The method calls of models.py that a handler makes on that object. \<open>current_borrow\<close>
  and \<open>class_borrow\<close> only SELECT; \<open>add_class\<close>, \<open>remove_class\<close> and \<open>class_borrow\<close>
  exist on \<open>Teacher\<close> objects alone.
\<close>

datatype call =
    Borrow string int
  | Return_book int
  | Set_name string
  | Set_age int
  | Add_class string
  | Remove_class string
  | Current_borrow
  | Class_borrow string

fun perform :: "user \<Rightarrow> call \<Rightarrow> database \<Rightarrow> database" where
  "perform self (Borrow isbn today) db = snd (borrow self isbn today db)"
| "perform self (Return_book i) db = snd (return_book self i db)"
| "perform self (Set_name v) db = snd (set_name self v db)"
| "perform self (Set_age v) db = snd (set_age self v db)"
| "perform self (Add_class c) db = (if role self = ''TEA'' then add_class self c db else db)"
| "perform self (Remove_class c) db = (if role self = ''TEA'' then remove_class self c db else db)"
| "perform self Current_borrow db = db"
| "perform self (Class_borrow c) db = db"

definition request :: "string \<Rightarrow> call \<Rightarrow> database \<Rightarrow> database" where
  "request u c db = (case current_user db u of None \<Rightarrow> db | Some self \<Rightarrow> perform self c db)"

fun run :: "(string \<times> call) list \<Rightarrow> database \<Rightarrow> database" where
  "run [] db = db"
| "run ((u, c) # rs) db = run rs (request u c db)"

text \<open>\<open>str.strip()\<close> on ASCII text, as \<open>user_update\<close> applies it to the form's fields.\<close>

definition whitespace :: "char \<Rightarrow> bool" where
  "whitespace c = (c \<in> set [CHR '' '', CHR 0x09, CHR 0x0A, CHR 0x0B, CHR 0x0C, CHR 0x0D,
                             CHR 0x1C, CHR 0x1D, CHR 0x1E, CHR 0x1F])"

definition strip :: "string \<Rightarrow> string" where
  "strip s = rev (dropWhile whitespace (rev (dropWhile whitespace s)))"

section \<open>The notions of the specification\<close>

text \<open>
  The store as \<open>init_db\<close> leaves it: no loan, no two books with one ISBN (the primary
  key of table \<open>book\<close>), and no book with a negative stock.
\<close>

definition initial :: "database \<Rightarrow> bool" where
  "initial db =
     (borrow_tbl db = [] \<and> distinct (map book_isbn (book_tbl db)) \<and>
      list_all (\<lambda>b. 0 \<le> book_remain b) (book_tbl db))"

text \<open>The open loans of a borrower on an ISBN, and the number of open loans on an ISBN.\<close>

definition open_loans_of :: "database \<Rightarrow> string \<Rightarrow> string \<Rightarrow> borrow_row list" where
  "open_loans_of db u isbn =
     filter (\<lambda>l. borrow_uid l = u \<and> borrow_isbn l = isbn \<and> returned l = 0) (borrow_tbl db)"

definition open_loans_on :: "database \<Rightarrow> string \<Rightarrow> int" where
  "open_loans_on db isbn =
     int (length (filter (\<lambda>l. borrow_isbn l = isbn \<and> returned l = 0) (borrow_tbl db)))"

text \<open>
  Every book of the store \<open>db\<close> is the book of the first store \<open>db0\<close> at the same
  place, its stock is not negative, and it is the first stock less the open loans on it.
\<close>

definition stock_consistent :: "database \<Rightarrow> database \<Rightarrow> bool" where
  "stock_consistent db0 db =
     list_all2 (\<lambda>b0 b. book_isbn b = book_isbn b0 \<and> 0 \<le> book_remain b \<and>
                        book_remain b = book_remain b0 - open_loans_on db (book_isbn b))
       (book_tbl db0) (book_tbl db)"

text \<open>The book is absent, or no copy of it remains.\<close>

definition no_stock :: "database \<Rightarrow> string \<Rightarrow> bool" where
  "no_stock db isbn =
     (isbn \<notin> set (map book_isbn (book_tbl db)) \<or>
      (\<exists>b. select_book db isbn = Some b \<and> book_remain b \<le> 0))"

text \<open>A borrower has no more open loans than the quota of the role (none, if unknown).\<close>

definition within_quota :: "database \<Rightarrow> string \<Rightarrow> bool" where
  "within_quota db u =
     (case current_user db u of
        None \<Rightarrow> count_open_loans db u = 0
      | Some p \<Rightarrow> count_open_loans db u \<le> quota p)"

text \<open>The primary key of table \<open>borrow\<close>.\<close>

definition borrow_key :: "database \<Rightarrow> bool" where
  "borrow_key db = distinct (map borrow_id (borrow_tbl db))"

section \<open>A small store\<close>

definition t001 :: user_row where
  "t001 = \<lparr>user_uid = ''T001'', user_name = ''Zhang'', user_sex = ''F'', user_age = 40,
           user_college = ''Math'', user_join_year = Some 2010, user_password = ''h1'',
           user_role = ''TEA''\<rparr>"

definition s001 :: user_row where
  "s001 = \<lparr>user_uid = ''S001'', user_name = ''Alice'', user_sex = ''F'', user_age = 19,
           user_college = ''Math'', user_join_year = None, user_password = ''h2'',
           user_role = ''STU''\<rparr>"

definition s002 :: user_row where
  "s002 = \<lparr>user_uid = ''S002'', user_name = ''Bob'', user_sex = ''M'', user_age = 20,
           user_college = ''Math'', user_join_year = None, user_password = ''h3'',
           user_role = ''STU''\<rparr>"

definition python_book :: book_row where
  "python_book = \<lparr>book_isbn = ''9787111234567'', book_name = ''Python'', book_category = ''CS'',
                  book_authors = ''Guido'', book_publisher = ''CMP'', book_keywords = ''Python'',
                  book_remain = 5\<rparr>"

definition cpp_book :: book_row where
  "cpp_book = \<lparr>book_isbn = ''9787112345678'', book_name = ''C++ Primer'', book_category = ''CS'',
               book_authors = ''Lippman'', book_publisher = ''CMP'', book_keywords = ''C++'',
               book_remain = 5\<rparr>"

definition clrs_book :: book_row where
  "clrs_book = \<lparr>book_isbn = ''9787302123456'', book_name = ''Algorithms'', book_category = ''CS'',
                book_authors = ''CLRS'', book_publisher = ''THU'', book_keywords = ''algorithms'',
                book_remain = 2\<rparr>"

definition small_db :: database where
  "small_db = \<lparr>user_tbl = [t001, s001, s002],
               class_tbl = [(''C001'', ''Math 1''), (''C002'', ''Math 2'')],
               student_tbl = [(''S001'', ''C001''), (''S002'', ''C001'')],
               teacher_class_tbl = [(''T001'', ''C001''), (''T001'', ''C002'')],
               book_tbl = [python_book, cpp_book, clrs_book],
               borrow_tbl = [],
               borrow_seq = 0\<rparr>"

definition alice :: user where
  "alice = \<lparr>uid = ''S001'', name = ''Alice'', sex = ''F'', age = 19, college = ''Math'',
            pwd_hash = ''h2'', role = ''STU''\<rparr>"

definition zhang :: user where
  "zhang = \<lparr>uid = ''T001'', name = ''Zhang'', sex = ''F'', age = 40, college = ''Math'',
            pwd_hash = ''h1'', role = ''TEA''\<rparr>"

text \<open>
  Alice and Bob take the two copies of the third book, then Alice takes a second book:
  she is at her quota, holds an open loan on a book that is out of stock and one on a
  book that is in stock.
\<close>

definition crowded_db :: database where
  "crowded_db =
     run [(''S001'', Borrow ''9787302123456'' 100), (''S002'', Borrow ''9787302123456'' 101),
          (''S001'', Borrow ''9787111234567'' 102)] small_db"

section \<open>Facts about the queries\<close>

lemma select_book_None: "select_book db isbn = None \<longleftrightarrow> isbn \<notin> set (map book_isbn (book_tbl db))"
  by (auto simp: select_book_def find_None_iff)

lemma select_book_Some: "select_book db isbn = Some b \<Longrightarrow> b \<in> set (book_tbl db) \<and> book_isbn b = isbn"
  by (auto simp: select_book_def find_Some_iff)

lemma no_stock_iff:
  "no_stock db isbn = (case select_book db isbn of None \<Rightarrow> True | Some b \<Rightarrow> book_remain b \<le> 0)"
proof (cases "select_book db isbn")
  case None
  then show ?thesis using select_book_None [of db isbn] by (simp add: no_stock_def)
next
  case (Some b)
  then have "isbn \<in> book_isbn ` set (book_tbl db)"
    using select_book_Some [of db isbn b] by auto
  with Some show ?thesis by (simp add: no_stock_def)
qed

lemma select_open_loan_None: "select_open_loan db u isbn = None \<longleftrightarrow> open_loans_of db u isbn = []"
  by (auto simp: select_open_loan_def open_loans_of_def find_None_iff filter_empty_conv)

section \<open>The checks of \<open>borrow\<close>\<close>

text \<open>
  Claim C1. A call of \<open>borrow\<close> fails with \<open>NoBook\<close> when the book is absent or no copy
  remains; otherwise with \<open>HasBorrowed\<close> when the borrower holds an open loan on the
  ISBN; otherwise with \<open>OutOfQuota\<close> when the borrower's open loans have reached the
  quota of the role. When several conditions hold, the earliest in this order decides.
\<close>

theorem borrow_check_order:
  "(no_stock db isbn \<longrightarrow> fst (borrow self isbn today db) = Inl NoBook) \<and>
   (\<not> no_stock db isbn \<and> open_loans_of db (uid self) isbn \<noteq> [] \<longrightarrow>
      fst (borrow self isbn today db) = Inl HasBorrowed) \<and>
   (\<not> no_stock db isbn \<and> open_loans_of db (uid self) isbn = [] \<and>
      quota self \<le> count_open_loans db (uid self) \<longrightarrow>
      fst (borrow self isbn today db) = Inl OutOfQuota)"
  by (cases "select_book db isbn")
     (simp_all add: no_stock_iff borrow_def select_open_loan_None)

section \<open>A successful \<open>borrow\<close>\<close>

lemma fold_max_ge: "(a::int) \<le> fold max xs a"
  by (induction xs arbitrary: a) (auto intro: order_trans [OF max.cobounded2])

lemma fold_max_mem: "(x::int) \<in> set xs \<Longrightarrow> x \<le> fold max xs a"
proof (induction xs arbitrary: a)
  case Nil
  then show ?case by simp
next
  case (Cons y ys)
  show ?case
  proof (cases "x = y")
    case True
    have "x \<le> max y a" using True by simp
    also have "\<dots> \<le> fold max ys (max y a)" by (rule fold_max_ge)
    finally show ?thesis by simp
  next
    case False
    with Cons show ?thesis by simp
  qed
qed

lemma next_borrow_id_fresh: "next_borrow_id db \<notin> set (map borrow_id (borrow_tbl db))"
proof
  assume "next_borrow_id db \<in> set (map borrow_id (borrow_tbl db))"
  then have "next_borrow_id db \<le> fold max (map borrow_id (borrow_tbl db)) (borrow_seq db)"
    by (rule fold_max_mem)
  then show False by (simp add: next_borrow_id_def)
qed

lemma find_map_key:
  assumes "\<And>x. k (f x) = k x"
  shows "find (\<lambda>x. k x = v) (map f xs) = map_option f (find (\<lambda>x. k x = v) xs)"
  by (induction xs) (simp_all add: assms)

lemma select_book_update_remain:
  "select_book (update_remain isbn d db) j =
     map_option (\<lambda>b. if book_isbn b = isbn then b\<lparr>book_remain := book_remain b + d\<rparr> else b)
       (select_book db j)"
  unfolding select_book_def update_remain_def
  by (simp, rule find_map_key) simp

lemma borrow_success:
  assumes "fst (borrow self isbn today db) = Inr ()"
  shows "\<exists>b. select_book db isbn = Some b \<and> 0 < book_remain b \<and>
           open_loans_of db (uid self) isbn = [] \<and> count_open_loans db (uid self) < quota self \<and>
           snd (borrow self isbn today db) =
             update_remain isbn (- 1) (insert_borrow (uid self) isbn today (today + 90) db)"
  using assms
  by (cases "select_book db isbn")
     (auto simp: borrow_def select_open_loan_None split: if_splits)

text \<open>
  Claim C5. A call of \<open>borrow\<close> that does not fail appends exactly one loan, of that
  borrower and ISBN, borrowed today and due 90 days later, not returned, under an id that
  no loan of the table has; and the book's stock is one less.
\<close>

theorem borrow_creates_loan:
  assumes "fst (borrow self isbn today db) = Inr ()"
  shows "\<exists>l b. borrow_tbl (snd (borrow self isbn today db)) = borrow_tbl db @ [l] \<and>
           borrow_uid l = uid self \<and> borrow_isbn l = isbn \<and> borrow_date l = today \<and>
           due_date l = today + 90 \<and> returned l = 0 \<and>
           borrow_id l \<notin> set (map borrow_id (borrow_tbl db)) \<and>
           select_book db isbn = Some b \<and>
           select_book (snd (borrow self isbn today db)) isbn =
             Some (b\<lparr>book_remain := book_remain b - 1\<rparr>)"
proof -
  from borrow_success [OF assms] obtain b where
    b: "select_book db isbn = Some b" and
    s: "snd (borrow self isbn today db) =
          update_remain isbn (- 1) (insert_borrow (uid self) isbn today (today + 90) db)"
    by blast
  have k: "book_isbn b = isbn" using select_book_Some [OF b] by simp
  have sb: "select_book (insert_borrow (uid self) isbn today (today + 90) db) isbn = Some b"
    using b by (simp add: select_book_def insert_borrow_def)
  show ?thesis
    using next_borrow_id_fresh [of db]
    by (simp add: s select_book_update_remain sb b k)
       (simp add: update_remain_def insert_borrow_def)
qed


section \<open>The small store, evaluated\<close>

lemmas small_defs = small_db_def t001_def s001_def s002_def python_book_def cpp_book_def
  clrs_book_def alice_def zhang_def

lemmas op_defs = request_def current_user_def borrow_def return_book_def select_book_def
  select_open_loan_def select_loan_def count_open_loans_def quota_def update_remain_def
  update_returned_def insert_borrow_def next_borrow_id_def

lemma crowded_db_eq:
  "crowded_db =
     small_db\<lparr>book_tbl := [python_book\<lparr>book_remain := 4\<rparr>, cpp_book, clrs_book\<lparr>book_remain := 0\<rparr>],
              borrow_tbl :=
                [\<lparr>borrow_id = 1, borrow_uid = ''S001'', borrow_isbn = ''9787302123456'',
                  borrow_date = 100, due_date = 190, returned = 0\<rparr>,
                 \<lparr>borrow_id = 2, borrow_uid = ''S002'', borrow_isbn = ''9787302123456'',
                  borrow_date = 101, due_date = 191, returned = 0\<rparr>,
                 \<lparr>borrow_id = 3, borrow_uid = ''S001'', borrow_isbn = ''9787111234567'',
                  borrow_date = 102, due_date = 192, returned = 0\<rparr>],
              borrow_seq := 3\<rparr>"
  by (simp add: crowded_db_def small_defs op_defs)

lemmas spec_defs = no_stock_def open_loans_of_def open_loans_on_def

theorem borrow_check_order_witness:
  "no_stock crowded_db ''9787302123456'' \<and>
   open_loans_of crowded_db (uid alice) ''9787302123456'' \<noteq> [] \<and>
   quota alice \<le> count_open_loans crowded_db (uid alice) \<and>
   fst (borrow alice ''9787302123456'' 103 crowded_db) = Inl NoBook \<and>
   \<not> no_stock crowded_db ''9787111234567'' \<and>
   open_loans_of crowded_db (uid alice) ''9787111234567'' \<noteq> [] \<and>
   fst (borrow alice ''9787111234567'' 103 crowded_db) = Inl HasBorrowed \<and>
   \<not> no_stock crowded_db ''9787112345678'' \<and>
   open_loans_of crowded_db (uid alice) ''9787112345678'' = [] \<and>
   fst (borrow alice ''9787112345678'' 103 crowded_db) = Inl OutOfQuota"
proof -
  have a: "no_stock crowded_db ''9787302123456''"
    by (simp add: crowded_db_eq small_defs spec_defs select_book_def)
  have b: "\<not> no_stock crowded_db ''9787111234567''"
    by (simp add: crowded_db_eq small_defs spec_defs select_book_def)
  have c: "\<not> no_stock crowded_db ''9787112345678''"
    by (simp add: crowded_db_eq small_defs spec_defs select_book_def)
  have d: "open_loans_of crowded_db (uid alice) ''9787302123456'' \<noteq> []"
    by (simp add: crowded_db_eq small_defs spec_defs)
  have e: "open_loans_of crowded_db (uid alice) ''9787111234567'' \<noteq> []"
    by (simp add: crowded_db_eq small_defs spec_defs)
  have f: "open_loans_of crowded_db (uid alice) ''9787112345678'' = []"
    by (simp add: crowded_db_eq small_defs spec_defs)
  have g: "quota alice \<le> count_open_loans crowded_db (uid alice)"
    by (simp add: crowded_db_eq small_defs quota_def count_open_loans_def)
  show ?thesis
    using a b c d e f g
      borrow_check_order [of crowded_db "''9787302123456''" alice 103]
      borrow_check_order [of crowded_db "''9787111234567''" alice 103]
      borrow_check_order [of crowded_db "''9787112345678''" alice 103]
    by simp
qed

theorem borrow_creates_loan_witness:
  "fst (borrow alice ''9787302123456'' 100 small_db) = Inr () \<and>
   (\<exists>l b. borrow_tbl (snd (borrow alice ''9787302123456'' 100 small_db)) = borrow_tbl small_db @ [l] \<and>
           borrow_uid l = uid alice \<and> borrow_isbn l = ''9787302123456'' \<and> borrow_date l = 100 \<and>
           due_date l = 100 + 90 \<and> returned l = 0 \<and>
           borrow_id l \<notin> set (map borrow_id (borrow_tbl small_db)) \<and>
           select_book small_db ''9787302123456'' = Some b \<and>
           select_book (snd (borrow alice ''9787302123456'' 100 small_db)) ''9787302123456'' =
             Some (b\<lparr>book_remain := book_remain b - 1\<rparr>))"
proof -
  have h: "fst (borrow alice ''9787302123456'' 100 small_db) = Inr ()"
    by (simp add: small_defs op_defs)
  show ?thesis using h borrow_creates_loan [OF h] by simp
qed

section \<open>\<open>return_book\<close>\<close>


lemma select_loan_Some:
  "select_loan db i u = Some l \<Longrightarrow>
     l \<in> set (borrow_tbl db) \<and> borrow_id l = i \<and> borrow_uid l = u \<and> returned l = 0"
  by (auto simp: select_loan_def find_Some_iff)




section \<open>The name setter\<close>

lemma current_user_uid: "current_user db u = Some p \<Longrightarrow> uid p = u"
  by (auto simp: current_user_def find_Some_iff split: if_splits option.splits)

lemma current_user_map:
  assumes "\<And>r. user_uid (f r) = user_uid r"
  shows "current_user (db\<lparr>user_tbl := map f (user_tbl db)\<rparr>) u =
           (if u = [] then None
            else map_option
                   (\<lambda>row. \<lparr>uid = user_uid (f row), name = user_name (f row), sex = user_sex (f row),
                            age = user_age (f row), college = user_college (f row),
                            pwd_hash = user_password (f row), role = user_role (f row)\<rparr>)
                   (find (\<lambda>r. user_uid r = u) (user_tbl db)))"
  by (simp add: current_user_def find_map_key [of user_uid f, OF assms] split: option.splits)

text \<open>
  Claim C7, as amended. The name setter fails with \<open>ValueError\<close> when the new name is
  the empty string, and leaves the store as it was; any other string, a blank one included,
  is written to the person's row and to the object. (The setter does not trim: the form
  handler \<open>user_update\<close> strips the field and skips the assignment when nothing is left.)
\<close>

theorem set_name_rejects_empty:
  "(v = [] \<longrightarrow> set_name self v db = (Inl ValueError, db)) \<and>
   (v \<noteq> [] \<longrightarrow>
      fst (set_name self v db) = Inr (self\<lparr>name := v\<rparr>) \<and>
      user_tbl (snd (set_name self v db)) =
        map (\<lambda>r. if user_uid r = uid self then r\<lparr>user_name := v\<rparr> else r) (user_tbl db) \<and>
      (\<forall>p. current_user db (uid self) = Some p \<longrightarrow>
           current_user (snd (set_name self v db)) (uid self) = Some (p\<lparr>name := v\<rparr>)))"
proof -
  have "current_user (snd (set_name self v db)) (uid self) = Some (p\<lparr>name := v\<rparr>)"
    if "v \<noteq> []" and p: "current_user db (uid self) = Some p" for p
  proof -
    have "current_user (db\<lparr>user_tbl := map (\<lambda>r. if user_uid r = uid self then r\<lparr>user_name := v\<rparr> else r)
                                             (user_tbl db)\<rparr>) (uid self) = Some (p\<lparr>name := v\<rparr>)"
      using p
      by (subst current_user_map)
         (auto simp: current_user_def find_Some_iff split: if_splits option.splits)
    with that show ?thesis by (simp add: set_name_def)
  qed
  then show ?thesis by (simp add: set_name_def)
qed

theorem set_name_rejects_empty_witness:
  "set_name alice [] small_db = (Inl ValueError, small_db) \<and>
   fst (set_name alice ''Alicia'' small_db) = Inr (alice\<lparr>name := ''Alicia''\<rparr>) \<and>
   current_user small_db (uid alice) = Some alice \<and>
   current_user (snd (set_name alice ''Alicia'' small_db)) (uid alice) =
     Some (alice\<lparr>name := ''Alicia''\<rparr>)"
proof -
  have a: "current_user small_db (uid alice) = Some alice"
    by (simp add: small_defs current_user_def)
  show ?thesis
    using a set_name_rejects_empty [of "[]" alice small_db]
      set_name_rejects_empty [of "''Alicia''" alice small_db]
    by simp
qed

text \<open>
  The claim as stated fails: a name of three spaces is blank after trimming, and the
  setter stores it.
\<close>

theorem set_name_blank_counterexample:
  "strip ''   '' = [] \<and>
   fst (set_name alice ''   '' small_db) = Inr (alice\<lparr>name := ''   ''\<rparr>) \<and>
   current_user (snd (set_name alice ''   '' small_db)) (uid alice) = Some (alice\<lparr>name := ''   ''\<rparr>)"
  by (simp add: strip_def whitespace_def set_name_def small_defs current_user_def)

section \<open>Teacher and class\<close>

text \<open>
  Claim C8. \<open>add_class\<close> twice in a row leaves the store that one call leaves, and for a
  pair that is already associated it changes nothing (it has no failure to raise).
\<close>

theorem add_class_idempotent:
  "add_class self c (add_class self c db) = add_class self c db \<and>
   ((uid self, c) \<in> set (teacher_class_tbl db) \<longrightarrow> add_class self c db = db)"
  by (simp add: add_class_def)

theorem add_class_idempotent_witness:
  "(uid zhang, ''C001'') \<in> set (teacher_class_tbl small_db) \<and>
   add_class zhang ''C001'' small_db = small_db \<and>
   (uid zhang, ''C003'') \<notin> set (teacher_class_tbl small_db) \<and>
   teacher_class_tbl (add_class zhang ''C003'' small_db) =
     [(''T001'', ''C001''), (''T001'', ''C002''), (''T001'', ''C003'')] \<and>
   add_class zhang ''C003'' (add_class zhang ''C003'' small_db) = add_class zhang ''C003'' small_db"
proof -
  have a: "(uid zhang, ''C001'') \<in> set (teacher_class_tbl small_db)"
    by (simp add: small_defs)
  have b: "(uid zhang, ''C003'') \<notin> set (teacher_class_tbl small_db)"
    by (simp add: small_defs)
  have c: "teacher_class_tbl (add_class zhang ''C003'' small_db) =
     [(''T001'', ''C001''), (''T001'', ''C002''), (''T001'', ''C003'')]"
    by (simp add: small_defs add_class_def)
  show ?thesis
    using a b c add_class_idempotent [of zhang "''C001''" small_db]
      add_class_idempotent [of zhang "''C003''" small_db]
    by simp
qed

section \<open>One request\<close>

lemma request_cases [case_names same borrowed returned users classes]:
  obtains
    (same) "request u c db = db"
  | (borrowed) self isbn today b where
      "current_user db u = Some self"
      "select_book db isbn = Some b" "0 < book_remain b"
      "open_loans_of db (uid self) isbn = []"
      "count_open_loans db (uid self) < quota self"
      "request u c db = update_remain isbn (- 1) (insert_borrow (uid self) isbn today (today + 90) db)"
  | (returned) self i l where
      "current_user db u = Some self"
      "select_loan db i (uid self) = Some l"
      "request u c db = update_remain (borrow_isbn l) 1 (update_returned i db)"
  | (users) f where
      "\<And>r. user_uid (f r) = user_uid r" "\<And>r. user_role (f r) = user_role r"
      "request u c db = db\<lparr>user_tbl := map f (user_tbl db)\<rparr>"
  | (classes) t where
      "request u c db = db\<lparr>teacher_class_tbl := t\<rparr>"
proof (cases "current_user db u")
  case None
  then show ?thesis using same by (simp add: request_def)
next
  case (Some self)
  then have r: "request u c db = perform self c db" by (simp add: request_def)
  show ?thesis
  proof (cases c)
    case (Borrow isbn today)
    show ?thesis
    proof (cases "fst (borrow self isbn today db) = Inr ()")
      case True
      from borrow_success [OF True] show ?thesis
        using borrowed [of self isbn _ today] Some r Borrow by auto
    next
      case False
      then have "snd (borrow self isbn today db) = db"
        by (auto simp: borrow_def split: option.splits if_splits)
      then show ?thesis using same r Borrow by simp
    qed
  next
    case (Return_book i)
    show ?thesis
    proof (cases "select_loan db i (uid self)")
      case None
      then show ?thesis using same r Return_book by (simp add: return_book_def)
    next
      case (Some l)
      then show ?thesis
        using returned [of self i l] \<open>current_user db u = Some self\<close> r Return_book
        by (simp add: return_book_def)
    qed
  next
    case (Set_name v)
    show ?thesis
    proof (cases "v = []")
      case True
      then show ?thesis using same r Set_name by (simp add: set_name_def)
    next
      case False
      then show ?thesis
        using users [of "\<lambda>r. if user_uid r = uid self then r\<lparr>user_name := v\<rparr> else r"] r Set_name
        by (simp add: set_name_def)
    qed
  next
    case (Set_age v)
    show ?thesis
    proof (cases "v \<le> 0")
      case True
      then show ?thesis using same r Set_age by (simp add: set_age_def)
    next
      case False
      then show ?thesis
        using users [of "\<lambda>r. if user_uid r = uid self then r\<lparr>user_age := v\<rparr> else r"] r Set_age
        by (simp add: set_age_def)
    qed
  next
    case (Add_class k)
    then have "request u c db = db \<or>
        request u c db = db\<lparr>teacher_class_tbl := teacher_class_tbl db @ [(uid self, k)]\<rparr>"
      using r by (simp add: add_class_def)
    then show ?thesis
      using same classes [of "teacher_class_tbl db @ [(uid self, k)]"] by blast
  next
    case (Remove_class k)
    then have "request u c db = db \<or>
        request u c db =
          db\<lparr>teacher_class_tbl := filter (\<lambda>p. p \<noteq> (uid self, k)) (teacher_class_tbl db)\<rparr>"
      using r by (simp add: remove_class_def)
    then show ?thesis
      using same classes [of "filter (\<lambda>p. p \<noteq> (uid self, k)) (teacher_class_tbl db)"] by blast
  next
    case Current_borrow
    then show ?thesis using same r by simp
  next
    case (Class_borrow k)
    then show ?thesis using same r by simp
  qed
qed


subsection \<open>Closing a loan in a table with a key\<close>

lemma close_absent:
  "i \<notin> set (map borrow_id xs) \<Longrightarrow>
     map (\<lambda>x. if borrow_id x = i then x\<lparr>returned := 1\<rparr> else x) xs = xs"
  by (induction xs) auto

lemma close_one:
  assumes "distinct (map borrow_id xs)" and "l \<in> set xs" and "returned l = 0"
    and K: "\<And>x. K (x\<lparr>returned := 1\<rparr>) = K x"
  shows "length (filter (\<lambda>x. K x \<and> returned x = 0) xs) =
           length (filter (\<lambda>x. K x \<and> returned x = 0)
             (map (\<lambda>x. if borrow_id x = borrow_id l then x\<lparr>returned := 1\<rparr> else x) xs)) +
           (if K l then 1 else 0)"
  using assms(1-3)
proof (induction xs)
  case Nil
  then show ?case by simp
next
  case (Cons x xs)
  show ?case
  proof (cases "borrow_id x = borrow_id l")
    case True
    have "l = x"
    proof (rule ccontr)
      assume "l \<noteq> x"
      with Cons.prems have "l \<in> set xs" by simp
      then have "borrow_id l \<in> set (map borrow_id xs)" by simp
      with True Cons.prems show False by simp
    qed
    moreover have "borrow_id l \<notin> set (map borrow_id xs)"
      using True Cons.prems by simp
    ultimately show ?thesis
      using Cons.prems close_absent [of "borrow_id l" xs] by (simp add: K)
  next
    case False
    then have "l \<in> set xs" using Cons.prems by auto
    with Cons False show ?thesis by simp
  qed
qed

lemma close_le:
  assumes K: "\<And>x. K (x\<lparr>returned := 1\<rparr>) = K x"
  shows "length (filter (\<lambda>x. K x \<and> returned x = 0)
            (map (\<lambda>x. if borrow_id x = i then x\<lparr>returned := 1\<rparr> else x) xs))
         \<le> length (filter (\<lambda>x. K x \<and> returned x = 0) xs)"
  by (induction xs) (auto simp: K)

subsection \<open>The key of table \<open>borrow\<close>\<close>

lemma borrow_key_request: "borrow_key db \<Longrightarrow> borrow_key (request u c db)"
proof (cases u c db rule: request_cases)
  case same
  assume "borrow_key db"
  with same show ?thesis by simp
next
  case (borrowed self isbn today b)
  assume "borrow_key db"
  then show ?thesis
    using next_borrow_id_fresh [of db]
    by (simp add: borrowed(6) borrow_key_def update_remain_def insert_borrow_def)
next
  case (returned self i l)
  assume "borrow_key db"
  moreover have "map borrow_id (map (\<lambda>x. if borrow_id x = i then x\<lparr>returned := 1\<rparr> else x) (borrow_tbl db))
        = map borrow_id (borrow_tbl db)"
    by (simp add: comp_def if_distrib [of borrow_id] cong: if_cong)
  ultimately show ?thesis
    by (simp add: returned(3) borrow_key_def update_remain_def update_returned_def del: map_map)
next
  case (users f)
  assume "borrow_key db"
  then show ?thesis by (simp add: users(3) borrow_key_def)
next
  case (classes t)
  assume "borrow_key db"
  then show ?thesis by (simp add: classes borrow_key_def)
qed


subsection \<open>Counting open loans after a write\<close>

lemma open_loans_on_borrowed:
  "open_loans_on (update_remain k d (insert_borrow u isbn today due db)) j =
     open_loans_on db j + (if j = isbn then 1 else 0)"
  by (simp add: open_loans_on_def update_remain_def insert_borrow_def)

lemma open_loans_on_returned:
  assumes "borrow_key db" and "select_loan db i u = Some l"
  shows "open_loans_on (update_remain k d (update_returned i db)) j =
           open_loans_on db j - (if j = borrow_isbn l then 1 else 0)"
proof -
  note l = select_loan_Some [OF assms(2)]
  have "length (filter (\<lambda>x. borrow_isbn x = j \<and> returned x = 0) (borrow_tbl db)) =
          length (filter (\<lambda>x. borrow_isbn x = j \<and> returned x = 0)
            (map (\<lambda>x. if borrow_id x = borrow_id l then x\<lparr>returned := 1\<rparr> else x) (borrow_tbl db))) +
          (if borrow_isbn l = j then 1 else 0)"
    using assms(1) l by (intro close_one) (simp_all add: borrow_key_def)
  then show ?thesis
    using l by (auto simp: open_loans_on_def update_remain_def update_returned_def)
qed

lemma count_open_loans_borrowed:
  "count_open_loans (update_remain k d (insert_borrow u isbn today due db)) v =
     count_open_loans db v + (if v = u then 1 else 0)"
  by (simp add: count_open_loans_def update_remain_def insert_borrow_def)

lemma count_open_loans_returned:
  "count_open_loans (update_remain k d (update_returned i db)) v \<le> count_open_loans db v"
  using close_le [of "\<lambda>x. borrow_uid x = v" i "borrow_tbl db"]
  by (simp add: count_open_loans_def update_remain_def update_returned_def)

lemma open_loans_of_borrowed:
  "length (open_loans_of (update_remain k d (insert_borrow u isbn today due db)) v j) =
     length (open_loans_of db v j) + (if v = u \<and> j = isbn then 1 else 0)"
  by (simp add: open_loans_of_def update_remain_def insert_borrow_def)

lemma open_loans_of_returned:
  "length (open_loans_of (update_remain k d (update_returned i db)) v j)
     \<le> length (open_loans_of db v j)"
  using close_le [of "\<lambda>x. borrow_uid x = v \<and> borrow_isbn x = j" i "borrow_tbl db"]
  by (simp add: open_loans_of_def update_remain_def update_returned_def conj_assoc)

subsection \<open>Stock\<close>

lemma list_all2_same_key:
  "list_all2 (\<lambda>x y. k y = k x \<and> R x y) xs ys \<Longrightarrow> map k ys = map k xs"
  by (induction xs ys rule: list_all2_induct) simp_all

lemma stock_isbns:
  "stock_consistent db0 db \<Longrightarrow> map book_isbn (book_tbl db) = map book_isbn (book_tbl db0)"
  unfolding stock_consistent_def by (rule list_all2_same_key)

lemma same_key_same_row:
  "distinct (map k xs) \<Longrightarrow> x \<in> set xs \<Longrightarrow> y \<in> set xs \<Longrightarrow> k x = k y \<Longrightarrow> x = y"
  by (auto simp: distinct_map dest: inj_onD)

lemma stock_consistent_request:
  assumes key: "borrow_key db" and isbns: "distinct (map book_isbn (book_tbl db0))"
    and st: "stock_consistent db0 db"
  shows "stock_consistent db0 (request u c db)"
proof (cases u c db rule: request_cases)
  case same
  with st show ?thesis by simp
next
  case (borrowed self isbn today b)
  define g where "g = (\<lambda>y::book_row. if book_isbn y = isbn then y\<lparr>book_remain := book_remain y + - 1\<rparr> else y)"
  have d: "distinct (map book_isbn (book_tbl db))"
    using isbns stock_isbns [OF st] by simp
  note b = select_book_Some [OF borrowed(2)]
  have t: "book_tbl (request u c db) = map g (book_tbl db)"
    by (simp add: borrowed(6) g_def update_remain_def insert_borrow_def)
  have n: "open_loans_on (request u c db) j = open_loans_on db j + (if j = isbn then 1 else 0)" for j
    by (simp add: borrowed(6) open_loans_on_borrowed)
  have "list_all2 (\<lambda>b0 y. book_isbn (g y) = book_isbn b0 \<and> 0 \<le> book_remain (g y) \<and>
            book_remain (g y) = book_remain b0 - open_loans_on (request u c db) (book_isbn (g y)))
          (book_tbl db0) (book_tbl db)"
  proof (rule list.rel_mono_strong [OF st [unfolded stock_consistent_def]])
    fix b0 y
    assume y: "y \<in> set (book_tbl db)"
      and h: "book_isbn y = book_isbn b0 \<and> 0 \<le> book_remain y \<and>
              book_remain y = book_remain b0 - open_loans_on db (book_isbn y)"
    show "book_isbn (g y) = book_isbn b0 \<and> 0 \<le> book_remain (g y) \<and>
            book_remain (g y) = book_remain b0 - open_loans_on (request u c db) (book_isbn (g y))"
    proof (cases "book_isbn y = isbn")
      case True
      then have "y = b" using same_key_same_row [OF d y] b by simp
      then have "0 < book_remain y" using borrowed(3) by simp
      with True h show ?thesis by (auto simp: g_def n)
    next
      case False
      with h show ?thesis by (auto simp: g_def n)
    qed
  qed
  then show ?thesis by (simp add: stock_consistent_def t list_all2_map2)
next
  case (returned self i l)
  define g where "g = (\<lambda>y::book_row. if book_isbn y = borrow_isbn l then y\<lparr>book_remain := book_remain y + 1\<rparr> else y)"
  have t: "book_tbl (request u c db) = map g (book_tbl db)"
    by (simp add: returned(3) g_def update_remain_def update_returned_def)
  have n: "open_loans_on (request u c db) j =
             open_loans_on db j - (if j = borrow_isbn l then 1 else 0)" for j
    by (simp add: returned(3) open_loans_on_returned [OF key returned(2)])
  have "list_all2 (\<lambda>b0 y. book_isbn (g y) = book_isbn b0 \<and> 0 \<le> book_remain (g y) \<and>
            book_remain (g y) = book_remain b0 - open_loans_on (request u c db) (book_isbn (g y)))
          (book_tbl db0) (book_tbl db)"
    by (rule list.rel_mono_strong [OF st [unfolded stock_consistent_def]])
       (auto simp: g_def n)
  then show ?thesis by (simp add: stock_consistent_def t list_all2_map2)
next
  case (users f)
  with st show ?thesis by (simp add: stock_consistent_def open_loans_on_def)
next
  case (classes t)
  with st show ?thesis by (simp add: stock_consistent_def open_loans_on_def)
qed


subsection \<open>One open loan for a borrower and a book\<close>

lemma single_loan_request:
  assumes "\<And>v j. length (open_loans_of db v j) \<le> 1"
  shows "length (open_loans_of (request u c db) v j) \<le> 1"
proof (cases u c db rule: request_cases)
  case same
  with assms show ?thesis by simp
next
  case (borrowed self isbn today b)
  show ?thesis
    using assms [of v j] borrowed(4)
    by (simp add: borrowed(6) open_loans_of_borrowed)
next
  case (returned self i l)
  show ?thesis
    using assms [of v j] open_loans_of_returned [of "borrow_isbn l" 1 i db v j]
    by (simp add: returned(3))
next
  case (users f)
  with assms [of v j] show ?thesis by (simp add: open_loans_of_def)
next
  case (classes t)
  with assms [of v j] show ?thesis by (simp add: open_loans_of_def)
qed

subsection \<open>Quota\<close>

lemma current_user_same_users:
  "user_tbl db' = user_tbl db \<Longrightarrow> current_user db' v = current_user db v"
  by (simp add: current_user_def)

lemma current_user_users:
  assumes "\<And>r. user_uid (f r) = user_uid r" and "\<And>r. user_role (f r) = user_role r"
  shows "(current_user (db\<lparr>user_tbl := map f (user_tbl db)\<rparr>) v = None \<and> current_user db v = None) \<or>
         (\<exists>p p'. current_user (db\<lparr>user_tbl := map f (user_tbl db)\<rparr>) v = Some p' \<and>
                  current_user db v = Some p \<and> role p' = role p)"
proof (cases "v = []")
  case True
  then show ?thesis by (simp add: current_user_def)
next
  case False
  show ?thesis
  proof (cases "find (\<lambda>r. user_uid r = v) (user_tbl db)")
    case None
    with False show ?thesis
      by (simp add: current_user_map [of f, OF assms(1)]) (simp add: current_user_def)
  next
    case (Some row)
    with False show ?thesis
      by (simp add: current_user_map [of f, OF assms(1)] assms(2)) (simp add: current_user_def)
  qed
qed

lemma within_quota_users:
  assumes "\<And>r. user_uid (f r) = user_uid r" and "\<And>r. user_role (f r) = user_role r"
    and "within_quota db v"
  shows "within_quota (db\<lparr>user_tbl := map f (user_tbl db)\<rparr>) v"
proof -
  have c: "count_open_loans (db\<lparr>user_tbl := map f (user_tbl db)\<rparr>) v = count_open_loans db v"
    by (simp add: count_open_loans_def)
  from current_user_users [of f db v, OF assms(1,2)] show ?thesis
  proof
    assume "current_user (db\<lparr>user_tbl := map f (user_tbl db)\<rparr>) v = None \<and> current_user db v = None"
    with assms(3) show ?thesis by (simp add: within_quota_def c split: option.splits)
  next
    assume "\<exists>p p'. current_user (db\<lparr>user_tbl := map f (user_tbl db)\<rparr>) v = Some p' \<and>
                  current_user db v = Some p \<and> role p' = role p"
    then obtain p p' where "current_user (db\<lparr>user_tbl := map f (user_tbl db)\<rparr>) v = Some p'"
      and "current_user db v = Some p" and "role p' = role p" by blast
    with assms(3) show ?thesis by (simp add: within_quota_def c quota_def split: option.splits)
  qed
qed

lemma within_quota_request:
  assumes "\<And>v. within_quota db v"
  shows "within_quota (request u c db) v"
proof (cases u c db rule: request_cases)
  case same
  with assms show ?thesis by simp
next
  case (borrowed self isbn today b)
  have cu: "current_user (request u c db) v = current_user db v"
    by (rule current_user_same_users) (simp add: borrowed(6) update_remain_def insert_borrow_def)
  have n: "count_open_loans (request u c db) v =
             count_open_loans db v + (if v = uid self then 1 else 0)"
    by (simp add: borrowed(6) count_open_loans_borrowed)
  show ?thesis
  proof (cases "v = uid self")
    case True
    then have "v = u" using current_user_uid [OF borrowed(1)] by simp
    then have "current_user (request u c db) v = Some self"
      using cu borrowed(1) by simp
    moreover have "count_open_loans (request u c db) v \<le> quota self"
      unfolding n using borrowed(5) True by simp
    ultimately show ?thesis by (simp add: within_quota_def)
  next
    case False
    then show ?thesis using assms [of v] by (simp add: within_quota_def cu n split: option.splits)
  qed
next
  case (returned self i l)
  have cu: "current_user (request u c db) v = current_user db v"
    by (rule current_user_same_users) (simp add: returned(3) update_remain_def update_returned_def)
  have n: "count_open_loans (request u c db) v \<le> count_open_loans db v"
    by (simp add: returned(3) count_open_loans_returned)
  have z: "0 \<le> count_open_loans (request u c db) v"
    by (simp add: count_open_loans_def)
  show ?thesis
    using assms [of v] n z by (auto simp: within_quota_def cu split: option.splits)
next
  case (users f)
  show ?thesis
    using within_quota_users [of f db v] users assms [of v] by simp
next
  case (classes t)
  have cu: "current_user (request u c db) v = current_user db v"
    by (rule current_user_same_users) (simp add: classes)
  have n: "count_open_loans (request u c db) v = count_open_loans db v"
    by (simp add: classes count_open_loans_def)
  show ?thesis
    using assms [of v] unfolding within_quota_def cu n .
qed

subsection \<open>Every store that requests reach\<close>

lemma initial_invariants:
  assumes "initial db0"
  shows "borrow_key db0" and "stock_consistent db0 db0"
    and "length (open_loans_of db0 v j) \<le> 1" and "within_quota db0 v"
proof -
  from assms have e: "borrow_tbl db0 = []" and r: "\<forall>b\<in>set (book_tbl db0). 0 \<le> book_remain b"
    by (simp_all add: initial_def list_all_iff)
  show "borrow_key db0" using e by (simp add: borrow_key_def)
  show "stock_consistent db0 db0"
    using e r by (simp add: stock_consistent_def open_loans_on_def list_all2_same)
  show "length (open_loans_of db0 v j) \<le> 1" using e by (simp add: open_loans_of_def)
  show "within_quota db0 v"
    using e by (simp add: within_quota_def count_open_loans_def quota_def split: option.splits)
qed

lemma run_invariants_from:
  assumes "distinct (map book_isbn (book_tbl db0))"
    and "borrow_key db" and "stock_consistent db0 db"
    and "\<And>v j. length (open_loans_of db v j) \<le> 1" and "\<And>v. within_quota db v"
  shows "borrow_key (run rs db) \<and> stock_consistent db0 (run rs db) \<and>
         (\<forall>v j. length (open_loans_of (run rs db) v j) \<le> 1) \<and>
         (\<forall>v. within_quota (run rs db) v)"
  using assms(2-5)
proof (induction rs arbitrary: db)
  case Nil
  then show ?case by simp
next
  case (Cons r rs)
  obtain u c where r: "r = (u, c)" by (cases r)
  have "borrow_key (run rs (request u c db)) \<and> stock_consistent db0 (run rs (request u c db)) \<and>
         (\<forall>v j. length (open_loans_of (run rs (request u c db)) v j) \<le> 1) \<and>
         (\<forall>v. within_quota (run rs (request u c db)) v)"
  proof (rule Cons.IH)
    show "borrow_key (request u c db)" using Cons.prems(1) by (rule borrow_key_request)
    show "stock_consistent db0 (request u c db)"
      using Cons.prems(1) assms(1) Cons.prems(2) by (rule stock_consistent_request)
    show "length (open_loans_of (request u c db) v j) \<le> 1" for v j
      using Cons.prems(3) by (rule single_loan_request)
    show "within_quota (request u c db) v" for v
      using Cons.prems(4) by (rule within_quota_request)
  qed
  then show ?case by (simp add: r)
qed

lemma run_invariants:
  assumes "initial db0"
  shows "borrow_key (run rs db0)" and "stock_consistent db0 (run rs db0)"
    and "length (open_loans_of (run rs db0) v j) \<le> 1" and "within_quota (run rs db0) v"
proof -
  have "distinct (map book_isbn (book_tbl db0))" using assms by (simp add: initial_def)
  then have "borrow_key (run rs db0) \<and> stock_consistent db0 (run rs db0) \<and>
         (\<forall>v j. length (open_loans_of (run rs db0) v j) \<le> 1) \<and>
         (\<forall>v. within_quota (run rs db0) v)"
    using initial_invariants [OF assms] by (intro run_invariants_from) 
  then show "borrow_key (run rs db0)" and "stock_consistent db0 (run rs db0)"
    and "length (open_loans_of (run rs db0) v j) \<le> 1" and "within_quota (run rs db0) v"
    by simp_all
qed


section \<open>Stock and open loans\<close>

lemma borrow_failure: "fst (borrow self isbn today db) \<noteq> Inr () \<Longrightarrow> snd (borrow self isbn today db) = db"
  by (auto simp: borrow_def split: option.splits if_splits)

text \<open>
  Claim C2. In every store that requests reach from an initial store, every book's stock
  is not negative and is its initial stock less the open loans on its ISBN; a successful
  \<open>borrow\<close> takes exactly one from the stock of the book, a successful \<open>return_book\<close>
  adds exactly one to the stock of the loan's book.
\<close>

theorem stock_matches_open_loans:
  "(initial db0 \<longrightarrow> stock_consistent db0 (run rs db0)) \<and>
   (fst (borrow self isbn today db) = Inr () \<longrightarrow>
      (\<exists>b. select_book db isbn = Some b \<and>
           select_book (snd (borrow self isbn today db)) isbn =
             Some (b\<lparr>book_remain := book_remain b - 1\<rparr>))) \<and>
   (fst (return_book self i db) = Inr () \<longrightarrow>
      (\<exists>l. select_loan db i (uid self) = Some l \<and>
           select_book (snd (return_book self i db)) (borrow_isbn l) =
             map_option (\<lambda>b. b\<lparr>book_remain := book_remain b + 1\<rparr>) (select_book db (borrow_isbn l))))"
proof (intro conjI impI)
  assume "initial db0"
  then show "stock_consistent db0 (run rs db0)" by (rule run_invariants)
next
  assume ok: "fst (borrow self isbn today db) = Inr ()"
  from borrow_success [OF ok] obtain b where
    b: "select_book db isbn = Some b" and
    s: "snd (borrow self isbn today db) =
          update_remain isbn (- 1) (insert_borrow (uid self) isbn today (today + 90) db)"
    by blast
  have "select_book (insert_borrow (uid self) isbn today (today + 90) db) isbn = Some b"
    using b by (simp add: select_book_def insert_borrow_def)
  then show "\<exists>b. select_book db isbn = Some b \<and>
           select_book (snd (borrow self isbn today db)) isbn =
             Some (b\<lparr>book_remain := book_remain b - 1\<rparr>)"
    using b select_book_Some [OF b] by (simp add: s select_book_update_remain)
next
  assume ok: "fst (return_book self i db) = Inr ()"
  then obtain l where l: "select_loan db i (uid self) = Some l"
    by (cases "select_loan db i (uid self)") (simp_all add: return_book_def)
  have e: "select_book (update_returned i db) (borrow_isbn l) = select_book db (borrow_isbn l)"
    by (simp add: select_book_def update_returned_def)
  have "select_book (snd (return_book self i db)) (borrow_isbn l) =
             map_option (\<lambda>b. b\<lparr>book_remain := book_remain b + 1\<rparr>) (select_book db (borrow_isbn l))"
  proof (cases "select_book db (borrow_isbn l)")
    case None
    then show ?thesis using l e by (simp add: return_book_def select_book_update_remain)
  next
    case (Some b)
    then show ?thesis
      using l e select_book_Some [OF Some] by (simp add: return_book_def select_book_update_remain)
  qed
  with l show "\<exists>l. select_loan db i (uid self) = Some l \<and>
           select_book (snd (return_book self i db)) (borrow_isbn l) =
             map_option (\<lambda>b. b\<lparr>book_remain := book_remain b + 1\<rparr>) (select_book db (borrow_isbn l))"
    by simp
qed

text \<open>
  Claim C3, as amended. In every store that requests reach from an initial store, a
  borrower has at most one open loan on an ISBN. A \<open>borrow\<close> of an ISBN on which the
  borrower holds an open loan fails and leaves the store as it was: with \<open>HasBorrowed\<close>
  when a copy of the book remains, with \<open>NoBook\<close> when none does (the stock is checked
  first).
\<close>

theorem single_open_loan:
  "(initial db0 \<longrightarrow> length (open_loans_of (run rs db0) v j) \<le> 1) \<and>
   (open_loans_of db (uid self) isbn \<noteq> [] \<longrightarrow>
      fst (borrow self isbn today db) = (if no_stock db isbn then Inl NoBook else Inl HasBorrowed) \<and>
      snd (borrow self isbn today db) = db)"
proof (intro conjI impI)
  assume "initial db0"
  then show "length (open_loans_of (run rs db0) v j) \<le> 1" by (rule run_invariants)
next
  assume o: "open_loans_of db (uid self) isbn \<noteq> []"
  then show "fst (borrow self isbn today db) = (if no_stock db isbn then Inl NoBook else Inl HasBorrowed)"
    by (cases "select_book db isbn") (simp_all add: no_stock_iff borrow_def select_open_loan_None)
  then have "fst (borrow self isbn today db) \<noteq> Inr ()" by (simp split: if_splits)
  then show "snd (borrow self isbn today db) = db" by (rule borrow_failure)
qed

text \<open>
  Claim C4, as amended. The quota is a function of the role alone: 4 for a teacher, 2 for
  a student. In every store that requests reach from an initial store, every borrower's
  open loans are within the quota of the borrower's role. \<open>borrow\<close> fails with
  \<open>OutOfQuota\<close> exactly when a copy of the book remains, the borrower has no open loan on
  it, and the borrower's open loans have reached the quota (an earlier check that fails
  decides the exception instead).
\<close>

theorem quota_bound:
  "(role self = ''TEA'' \<longrightarrow> quota self = 4) \<and> (role self = ''STU'' \<longrightarrow> quota self = 2) \<and>
   (initial db0 \<longrightarrow> within_quota (run rs db0) v) \<and>
   (fst (borrow self isbn today db) = Inl OutOfQuota \<longleftrightarrow>
      \<not> no_stock db isbn \<and> open_loans_of db (uid self) isbn = [] \<and>
      quota self \<le> count_open_loans db (uid self))"
proof (intro conjI impI)
  show "quota self = 4" if "role self = ''TEA''" using that by (simp add: quota_def)
  show "quota self = 2" if "role self = ''STU''" using that by (simp add: quota_def)
  show "within_quota (run rs db0) v" if "initial db0" using that by (rule run_invariants)
  show "fst (borrow self isbn today db) = Inl OutOfQuota \<longleftrightarrow>
      \<not> no_stock db isbn \<and> open_loans_of db (uid self) isbn = [] \<and>
      quota self \<le> count_open_loans db (uid self)"
    by (cases "select_book db isbn") (simp_all add: no_stock_iff borrow_def select_open_loan_None)
qed


lemma initial_small_db: "initial small_db"
  by (simp add: initial_def small_defs)

lemma current_user_crowded: "current_user crowded_db ''S001'' = Some alice"
  by (simp add: crowded_db_eq small_defs current_user_def)

theorem stock_matches_open_loans_witness:
  "initial small_db \<and> stock_consistent small_db crowded_db \<and>
   fst (borrow alice ''9787302123456'' 100 small_db) = Inr () \<and>
   select_book small_db ''9787302123456'' = Some clrs_book \<and>
   select_book (snd (borrow alice ''9787302123456'' 100 small_db)) ''9787302123456'' =
     Some (clrs_book\<lparr>book_remain := 1\<rparr>) \<and>
   fst (return_book alice 1 crowded_db) = Inr () \<and>
   select_book crowded_db ''9787302123456'' = Some (clrs_book\<lparr>book_remain := 0\<rparr>) \<and>
   select_book (snd (return_book alice 1 crowded_db)) ''9787302123456'' =
     Some (clrs_book\<lparr>book_remain := 1\<rparr>)"
proof -
  have a: "fst (borrow alice ''9787302123456'' 100 small_db) = Inr ()"
    by (simp add: small_defs op_defs)
  have b: "select_book small_db ''9787302123456'' = Some clrs_book"
    by (simp add: small_defs select_book_def)
  have c: "fst (return_book alice 1 crowded_db) = Inr ()"
    by (simp add: crowded_db_eq small_defs return_book_def select_loan_def)
  have d: "select_book crowded_db ''9787302123456'' = Some (clrs_book\<lparr>book_remain := 0\<rparr>)"
    by (simp add: crowded_db_eq small_defs select_book_def)
  have e: "select_loan crowded_db 1 (uid alice) =
             Some \<lparr>borrow_id = 1, borrow_uid = ''S001'', borrow_isbn = ''9787302123456'',
                   borrow_date = 100, due_date = 190, returned = 0\<rparr>"
    by (simp add: crowded_db_eq small_defs select_loan_def)
  have f: "book_remain clrs_book = 2" by (simp add: clrs_book_def)
  note t = stock_matches_open_loans
    [of small_db "[(''S001'', Borrow ''9787302123456'' 100), (''S002'', Borrow ''9787302123456'' 101),
                  (''S001'', Borrow ''9787111234567'' 102)]", folded crowded_db_def]
  show ?thesis
    using initial_small_db a b c d e f
      t [of alice "''9787302123456''" 100 small_db 1]
      t [of alice "''9787302123456''" 100 crowded_db 1]
    by simp
qed

theorem single_open_loan_witness:
  "initial small_db \<and>
   length (open_loans_of crowded_db ''S001'' ''9787111234567'') \<le> 1 \<and>
   open_loans_of crowded_db (uid alice) ''9787111234567'' \<noteq> [] \<and>
   \<not> no_stock crowded_db ''9787111234567'' \<and>
   fst (borrow alice ''9787111234567'' 103 crowded_db) = Inl HasBorrowed \<and>
   snd (borrow alice ''9787111234567'' 103 crowded_db) = crowded_db"
proof -
  have a: "open_loans_of crowded_db (uid alice) ''9787111234567'' \<noteq> []"
    by (simp add: crowded_db_eq small_defs spec_defs)
  have b: "\<not> no_stock crowded_db ''9787111234567''"
    by (simp add: crowded_db_eq small_defs spec_defs select_book_def)
  show ?thesis
    using initial_small_db a b
      single_open_loan
        [of small_db "[(''S001'', Borrow ''9787302123456'' 100), (''S002'', Borrow ''9787302123456'' 101),
                       (''S001'', Borrow ''9787111234567'' 102)]"
            "''S001''" "''9787111234567''" crowded_db alice "''9787111234567''" 103,
         folded crowded_db_def]
    by simp
qed

text \<open>
  The claim as stated fails in a store that requests reach: Alice holds an open loan on
  the third book, Bob holds its other copy, and her second \<open>borrow\<close> of it fails with
  \<open>NoBook\<close>, not with \<open>HasBorrowed\<close>.
\<close>

theorem single_open_loan_counterexample:
  "initial small_db \<and> current_user crowded_db ''S001'' = Some alice \<and>
   open_loans_of crowded_db (uid alice) ''9787302123456'' \<noteq> [] \<and>
   fst (borrow alice ''9787302123456'' 103 crowded_db) = Inl NoBook \<and>
   fst (borrow alice ''9787302123456'' 103 crowded_db) \<noteq> Inl HasBorrowed"
proof -
  have "open_loans_of crowded_db (uid alice) ''9787302123456'' \<noteq> []"
    by (simp add: crowded_db_eq small_defs spec_defs)
  moreover have "fst (borrow alice ''9787302123456'' 103 crowded_db) = Inl NoBook"
    by (simp add: crowded_db_eq small_defs borrow_def select_book_def)
  ultimately show ?thesis
    using initial_small_db current_user_crowded by simp
qed

theorem quota_bound_witness:
  "role zhang = ''TEA'' \<and> quota zhang = 4 \<and> role alice = ''STU'' \<and> quota alice = 2 \<and>
   initial small_db \<and> within_quota crowded_db ''S001'' \<and>
   \<not> no_stock crowded_db ''9787112345678'' \<and>
   open_loans_of crowded_db (uid alice) ''9787112345678'' = [] \<and>
   quota alice \<le> count_open_loans crowded_db (uid alice) \<and>
   fst (borrow alice ''9787112345678'' 103 crowded_db) = Inl OutOfQuota"
proof -
  have a: "role zhang = ''TEA''" and b: "role alice = ''STU''"
    by (simp_all add: small_defs)
  have c: "\<not> no_stock crowded_db ''9787112345678''"
    by (simp add: crowded_db_eq small_defs spec_defs select_book_def)
  have d: "open_loans_of crowded_db (uid alice) ''9787112345678'' = []"
    by (simp add: crowded_db_eq small_defs spec_defs)
  have e: "quota alice \<le> count_open_loans crowded_db (uid alice)"
    by (simp add: crowded_db_eq small_defs quota_def count_open_loans_def)
  note t = quota_bound
    [of _ small_db "[(''S001'', Borrow ''9787302123456'' 100), (''S002'', Borrow ''9787302123456'' 101),
                  (''S001'', Borrow ''9787111234567'' 102)]" "''S001''", folded crowded_db_def]
  show ?thesis
    using initial_small_db a b c d e
      t [of zhang "''9787112345678''" 103 crowded_db]
      t [of alice "''9787112345678''" 103 crowded_db]
    by simp
qed

text \<open>
  The claim as stated fails in a store that requests reach: Alice's open loans have
  reached her quota, and her \<open>borrow\<close> of a book that the store does not hold fails with
  \<open>NoBook\<close>, her \<open>borrow\<close> of a book she holds with \<open>HasBorrowed\<close>.
\<close>

theorem quota_bound_counterexample:
  "initial small_db \<and> current_user crowded_db ''S001'' = Some alice \<and>
   quota alice \<le> count_open_loans crowded_db (uid alice) \<and>
   fst (borrow alice ''9780000000000'' 103 crowded_db) = Inl NoBook \<and>
   fst (borrow alice ''9780000000000'' 103 crowded_db) \<noteq> Inl OutOfQuota \<and>
   fst (borrow alice ''9787111234567'' 103 crowded_db) = Inl HasBorrowed \<and>
   fst (borrow alice ''9787111234567'' 103 crowded_db) \<noteq> Inl OutOfQuota"
proof -
  have "quota alice \<le> count_open_loans crowded_db (uid alice)"
    by (simp add: crowded_db_eq small_defs quota_def count_open_loans_def)
  moreover have "fst (borrow alice ''9780000000000'' 103 crowded_db) = Inl NoBook"
    by (simp add: crowded_db_eq small_defs borrow_def select_book_def)
  moreover have "fst (borrow alice ''9787111234567'' 103 crowded_db) = Inl HasBorrowed"
    by (simp add: crowded_db_eq small_defs borrow_def select_book_def select_open_loan_def)
  ultimately show ?thesis
    using initial_small_db current_user_crowded by simp
qed

section \<open>What \<open>borrow\<close> and \<open>return_book\<close> leave alone\<close>

lemma list_all2_map_same: "list_all2 P xs (map g xs) \<longleftrightarrow> (\<forall>x\<in>set xs. P x (g x))"
  by (simp add: list_all2_map2 list_all2_same)

lemma borrow_frame_tables:
  "user_tbl (snd (borrow self isbn today db)) = user_tbl db \<and>
   class_tbl (snd (borrow self isbn today db)) = class_tbl db \<and>
   student_tbl (snd (borrow self isbn today db)) = student_tbl db \<and>
   teacher_class_tbl (snd (borrow self isbn today db)) = teacher_class_tbl db"
proof (cases "fst (borrow self isbn today db) = Inr ()")
  case True
  from borrow_success [OF True] show ?thesis
    by (auto simp: update_remain_def insert_borrow_def)
next
  case False
  then show ?thesis by (simp add: borrow_failure)
qed

lemma borrow_frame_books:
  "list_all2 (\<lambda>b b'. if book_isbn b = isbn then b' = b\<lparr>book_remain := book_remain b'\<rparr> else b' = b)
      (book_tbl db) (book_tbl (snd (borrow self isbn today db)))"
proof (cases "fst (borrow self isbn today db) = Inr ()")
  case True
  from borrow_success [OF True] show ?thesis
    by (auto simp: update_remain_def insert_borrow_def list_all2_map_same)
next
  case False
  then show ?thesis by (simp add: borrow_failure list_all2_same)
qed

lemma borrow_frame_loans:
  "borrow_tbl (snd (borrow self isbn today db)) = borrow_tbl db \<or>
     (\<exists>l. borrow_tbl (snd (borrow self isbn today db)) = borrow_tbl db @ [l] \<and>
          borrow_uid l = uid self \<and> borrow_isbn l = isbn)"
proof (cases "fst (borrow self isbn today db) = Inr ()")
  case True
  from borrow_success [OF True] show ?thesis
    by (auto simp: update_remain_def insert_borrow_def)
next
  case False
  then show ?thesis by (simp add: borrow_failure)
qed

lemma return_frame_tables:
  "user_tbl (snd (return_book self i db)) = user_tbl db \<and>
   class_tbl (snd (return_book self i db)) = class_tbl db \<and>
   student_tbl (snd (return_book self i db)) = student_tbl db \<and>
   teacher_class_tbl (snd (return_book self i db)) = teacher_class_tbl db \<and>
   borrow_seq (snd (return_book self i db)) = borrow_seq db"
  by (cases "select_loan db i (uid self)")
     (simp_all add: return_book_def update_remain_def update_returned_def)

lemma return_frame_rows:
  assumes key: "borrow_key db"
  shows "case select_loan db i (uid self) of
       None \<Rightarrow> snd (return_book self i db) = db
     | Some m \<Rightarrow>
         list_all2 (\<lambda>l l'. if l = m then l' = l\<lparr>returned := returned l'\<rparr> else l' = l)
           (borrow_tbl db) (borrow_tbl (snd (return_book self i db))) \<and>
         list_all2 (\<lambda>b b'. if book_isbn b = borrow_isbn m then b' = b\<lparr>book_remain := book_remain b'\<rparr>
                            else b' = b)
           (book_tbl db) (book_tbl (snd (return_book self i db)))"
proof (cases "select_loan db i (uid self)")
  case None
  then show ?thesis by (simp add: return_book_def)
next
  case (Some m)
  note m = select_loan_Some [OF Some]
  have same: "l = m" if "l \<in> set (borrow_tbl db)" and "borrow_id l = i" for l
    using same_key_same_row [OF key [unfolded borrow_key_def] that(1)] m that(2) by simp
  have r: "list_all2 (\<lambda>l l'. if l = m then l' = l\<lparr>returned := returned l'\<rparr> else l' = l)
           (borrow_tbl db) (map (\<lambda>l. if borrow_id l = i then l\<lparr>returned := 1\<rparr> else l) (borrow_tbl db))"
    unfolding list_all2_map_same
  proof
    fix l
    assume l: "l \<in> set (borrow_tbl db)"
    show "if l = m
          then (if borrow_id l = i then l\<lparr>returned := 1\<rparr> else l) =
               l\<lparr>returned := returned (if borrow_id l = i then l\<lparr>returned := 1\<rparr> else l)\<rparr>
          else (if borrow_id l = i then l\<lparr>returned := 1\<rparr> else l) = l"
    proof (cases "borrow_id l = i")
      case True
      then have "l = m" using same [OF l] by simp
      with True show ?thesis by simp
    next
      case False
      then have "l \<noteq> m" using m by auto
      with False show ?thesis by simp
    qed
  qed
  have b: "list_all2 (\<lambda>b b'. if book_isbn b = borrow_isbn m then b' = b\<lparr>book_remain := book_remain b'\<rparr>
                            else b' = b)
           (book_tbl db)
           (map (\<lambda>b. if book_isbn b = borrow_isbn m then b\<lparr>book_remain := book_remain b + 1\<rparr> else b)
              (book_tbl db))"
    unfolding list_all2_map_same by simp
  show ?thesis
    using r b by (simp add: Some return_book_def update_remain_def update_returned_def)
qed

text \<open>
  Claim C10. \<open>borrow\<close>, failing or not, changes nothing but the stock of the books with
  that ISBN and the loan table (with its key counter), to which it appends at most one
  loan, of that borrower and ISBN; a failing call changes nothing at all. On a loan table with its primary key,
  \<open>return_book\<close> changes nothing but the returned flag of the loan it matched and the
  stock of the books with that loan's ISBN. Persons, classes, rosters and associations
  stay as they were.
\<close>

theorem borrow_return_frame:
  "(user_tbl (snd (borrow self isbn today db)) = user_tbl db \<and>
    class_tbl (snd (borrow self isbn today db)) = class_tbl db \<and>
    student_tbl (snd (borrow self isbn today db)) = student_tbl db \<and>
    teacher_class_tbl (snd (borrow self isbn today db)) = teacher_class_tbl db \<and>
    list_all2 (\<lambda>b b'. if book_isbn b = isbn then b' = b\<lparr>book_remain := book_remain b'\<rparr> else b' = b)
      (book_tbl db) (book_tbl (snd (borrow self isbn today db))) \<and>
    (borrow_tbl (snd (borrow self isbn today db)) = borrow_tbl db \<or>
     (\<exists>l. borrow_tbl (snd (borrow self isbn today db)) = borrow_tbl db @ [l] \<and>
          borrow_uid l = uid self \<and> borrow_isbn l = isbn)) \<and>
    (fst (borrow self isbn today db) \<noteq> Inr () \<longrightarrow> snd (borrow self isbn today db) = db)) \<and>
   (borrow_key db \<longrightarrow>
    user_tbl (snd (return_book self i db)) = user_tbl db \<and>
    class_tbl (snd (return_book self i db)) = class_tbl db \<and>
    student_tbl (snd (return_book self i db)) = student_tbl db \<and>
    teacher_class_tbl (snd (return_book self i db)) = teacher_class_tbl db \<and>
    borrow_seq (snd (return_book self i db)) = borrow_seq db \<and>
    (case select_loan db i (uid self) of
       None \<Rightarrow> snd (return_book self i db) = db
     | Some m \<Rightarrow>
         list_all2 (\<lambda>l l'. if l = m then l' = l\<lparr>returned := returned l'\<rparr> else l' = l)
           (borrow_tbl db) (borrow_tbl (snd (return_book self i db))) \<and>
         list_all2 (\<lambda>b b'. if book_isbn b = borrow_isbn m then b' = b\<lparr>book_remain := book_remain b'\<rparr>
                            else b' = b)
           (book_tbl db) (book_tbl (snd (return_book self i db)))))"
proof (intro conjI impI)
  note a = borrow_frame_tables [of self isbn today db]
  show "user_tbl (snd (borrow self isbn today db)) = user_tbl db" using a by (rule conjunct1)
  show "class_tbl (snd (borrow self isbn today db)) = class_tbl db" using a by simp
  show "student_tbl (snd (borrow self isbn today db)) = student_tbl db" using a by simp
  show "teacher_class_tbl (snd (borrow self isbn today db)) = teacher_class_tbl db" using a by simp
  show "list_all2 (\<lambda>b b'. if book_isbn b = isbn then b' = b\<lparr>book_remain := book_remain b'\<rparr> else b' = b)
      (book_tbl db) (book_tbl (snd (borrow self isbn today db)))"
    by (rule borrow_frame_books)
  show "borrow_tbl (snd (borrow self isbn today db)) = borrow_tbl db \<or>
     (\<exists>l. borrow_tbl (snd (borrow self isbn today db)) = borrow_tbl db @ [l] \<and>
          borrow_uid l = uid self \<and> borrow_isbn l = isbn)"
    by (rule borrow_frame_loans)
  show "snd (borrow self isbn today db) = db" if "fst (borrow self isbn today db) \<noteq> Inr ()"
    using that by (rule borrow_failure)
  note b = return_frame_tables [of self i db]
  show "user_tbl (snd (return_book self i db)) = user_tbl db" using b by (rule conjunct1)
  show "class_tbl (snd (return_book self i db)) = class_tbl db" using b by simp
  show "student_tbl (snd (return_book self i db)) = student_tbl db" using b by simp
  show "teacher_class_tbl (snd (return_book self i db)) = teacher_class_tbl db" using b by simp
  show "borrow_seq (snd (return_book self i db)) = borrow_seq db" using b by simp
  show "case select_loan db i (uid self) of
       None \<Rightarrow> snd (return_book self i db) = db
     | Some m \<Rightarrow>
         list_all2 (\<lambda>l l'. if l = m then l' = l\<lparr>returned := returned l'\<rparr> else l' = l)
           (borrow_tbl db) (borrow_tbl (snd (return_book self i db))) \<and>
         list_all2 (\<lambda>b b'. if book_isbn b = borrow_isbn m then b' = b\<lparr>book_remain := book_remain b'\<rparr>
                            else b' = b)
           (book_tbl db) (book_tbl (snd (return_book self i db)))"
    if "borrow_key db" using that by (rule return_frame_rows)
qed

theorem borrow_return_frame_witness:
  "fst (borrow alice ''9787302123456'' 103 crowded_db) \<noteq> Inr () \<and>
   snd (borrow alice ''9787302123456'' 103 crowded_db) = crowded_db \<and>
   user_tbl (snd (borrow alice ''9787302123456'' 100 small_db)) = user_tbl small_db \<and>
   borrow_key crowded_db \<and>
   user_tbl (snd (return_book alice 1 crowded_db)) = user_tbl crowded_db \<and>
   teacher_class_tbl (snd (return_book alice 1 crowded_db)) = teacher_class_tbl crowded_db \<and>
   borrow_seq (snd (return_book alice 1 crowded_db)) = borrow_seq crowded_db \<and>
   snd (return_book alice 2 crowded_db) = crowded_db"
proof -
  have a: "fst (borrow alice ''9787302123456'' 103 crowded_db) \<noteq> Inr ()"
    by (simp add: crowded_db_eq small_defs borrow_def select_book_def)
  have b: "borrow_key crowded_db"
    by (simp add: crowded_db_eq borrow_key_def)
  have c: "select_loan crowded_db 2 (uid alice) = None"
    by (simp add: crowded_db_eq small_defs select_loan_def)
  show ?thesis
    using a b c
      borrow_return_frame [of alice "''9787302123456''" 103 crowded_db 1]
      borrow_return_frame [of alice "''9787302123456''" 100 small_db 1]
      borrow_return_frame [of alice "''9787302123456''" 103 crowded_db 2]
    by simp
qed

end
